theory Spec2Isabelle
  imports Main "HOL-Library.AList"
begin

section \<open>Paths\<close>

text \<open>
  A path is the list of its components below the file-system root. The configured
  server directory (\<open>this.minecraft.dir\<close>) is kept in this resolved form.
  \<open>path.join(dir, name)\<close> concatenates with a slash and normalises: empty components
  and \<open>.\<close> are dropped, \<open>..\<close> removes the component before it (and stays at the
  root when there is none).
\<close>

type_synonym path = "string list"

fun split_slash :: "string \<Rightarrow> string list" where
  "split_slash [] = [[]]"
| "split_slash (c # cs) =
     (if c = CHR ''/'' then [] # split_slash cs
      else (case split_slash cs of
              [] \<Rightarrow> [[c]]
            | w # ws \<Rightarrow> (c # w) # ws))"

definition norm_step :: "path \<Rightarrow> string \<Rightarrow> path" where
  "norm_step acc c =
     (if c = [] \<or> c = ''.'' then acc
      else if c = ''..'' then butlast acc
      else acc @ [c])"

definition path_join :: "path \<Rightarrow> string \<Rightarrow> path" where
  "path_join dir name = foldl norm_step dir (split_slash name)"

section \<open>JavaScript values and errors\<close>

text \<open>
  The values that reach the functions below: \<open>undefined\<close>, \<open>null\<close>, strings (lists of
  8-bit characters) and arrays. An uncaught exception or a \<open>process.exit\<close> ends the
  computation with an error value.
\<close>

datatype jsval = JUndefined | JNull | JStr string | JArr "jsval list"

datatype error =
    TypeError       \<comment> \<open>property access or call on a value that has none\<close>
  | ProcessExit     \<comment> \<open>\<open>process.exit(1)\<close>\<close>
  | ENOENT | ENOTDIR | EISDIR | ENOTEMPTY | EBUSY   \<comment> \<open>thrown by the \<open>fs\<close> calls\<close>

text \<open>\<open>xs[i]\<close> on an array of values: \<open>undefined\<close> out of range.\<close>

definition js_nth :: "jsval list \<Rightarrow> nat \<Rightarrow> jsval" where
  "js_nth xs i = (if i < length xs then xs ! i else JUndefined)"

section \<open>Regular expressions\<close>

text \<open>
  A RegExp object is its \<open>g\<close> flag and its pattern; the pattern is given by the function
  that tells whether it matches at the very start of a string, and then returns the
  length of the match and the captured groups. The \<open>lastIndex\<close> property, which
  \<open>exec\<close> reads and writes, is passed in and returned next to the result.
\<close>

record regexp =
  global :: bool
  match_at :: "string \<Rightarrow> (nat \<times> jsval list) option"

text \<open>The leftmost match that starts at index \<open>i\<close> or later: start, length, groups.\<close>

function search_from ::
  "(string \<Rightarrow> (nat \<times> jsval list) option) \<Rightarrow> string \<Rightarrow> nat \<Rightarrow> (nat \<times> nat \<times> jsval list) option"
where
  "search_from m s i =
     (if length s < i then None
      else (case m (drop i s) of
              Some (len, caps) \<Rightarrow> Some (i, len, caps)
            | None \<Rightarrow> search_from m s (Suc i)))"
  by pat_completeness auto
termination
  by (relation "measure (\<lambda>(m, s, i). Suc (length s) - i)") auto

text \<open>
  \<open>regex.exec(s)\<close>: the match array (whole match, then the groups) or \<open>null\<close>, and the
  new \<open>lastIndex\<close>. A global regex searches from \<open>lastIndex\<close> and leaves the end of the
  match there; a failed search resets it to 0.
\<close>

definition regexp_exec :: "regexp \<Rightarrow> nat \<Rightarrow> string \<Rightarrow> jsval list option \<times> nat" where
  "regexp_exec r lastIndex s =
     (case search_from (match_at r) s (if global r then lastIndex else 0) of
        None \<Rightarrow> (None, 0)
      | Some (i, len, caps) \<Rightarrow>
          (Some (JStr (take len (drop i s)) # caps),
           if global r then i + len else lastIndex))"

text \<open>
  The loop of getRegexMatches, lines 47-60. It need not end: a regex without the \<open>g\<close>
  flag finds the same match again and again.
\<close>

partial_function (option) collect_matches ::
  "regexp \<Rightarrow> string \<Rightarrow> nat \<Rightarrow> jsval list \<Rightarrow> (jsval list \<times> nat) option"
where
  "collect_matches r s lastIndex matches =
     (case regexp_exec r lastIndex s of
        (None, li) \<Rightarrow> Some (matches, li)
      | (Some match, li) \<Rightarrow>
          collect_matches r s li
            (matches @ [if 2 < length match then JArr (tl match) else js_nth match 1]))"

declare collect_matches.simps [code]

text \<open>The first argument of getRegexMatches: a RegExp object, or any other value.\<close>

datatype regex_arg = RegExp regexp | NotRegExp jsval

text \<open>getRegexMatches, lines 41-63: the returned value and the regex's \<open>lastIndex\<close>.\<close>

definition getRegexMatches :: "regex_arg \<Rightarrow> nat \<Rightarrow> string \<Rightarrow> (jsval \<times> nat) option" where
  "getRegexMatches regex lastIndex string =
     (case regex of
        NotRegExp v \<Rightarrow> Some (JStr ''ERROR'', lastIndex)
      | RegExp r \<Rightarrow>
          (case collect_matches r string lastIndex [] of
             None \<Rightarrow> None
           | Some (matches, li) \<Rightarrow> Some (JArr matches, li)))"

subsection \<open>The RegEx table, lines 24-28\<close>

text \<open>
  All three patterns carry the flags \<open>gi\<close>. In each, a repeated character class is
  followed by a character outside the class, so the longest run is the only one that
  can match. With the \<open>i\<close> flag a pattern letter matches both of its cases.
\<close>

definition upper :: "char \<Rightarrow> char" where
  "upper c =
     (case map_of (zip ''abcdefghijklmnopqrstuvwxyz'' ''ABCDEFGHIJKLMNOPQRSTUVWXYZ'') c of
        Some u \<Rightarrow> u
      | None \<Rightarrow> c)"

definition ci_prefix :: "string \<Rightarrow> string \<Rightarrow> bool" where
  "ci_prefix p s = (map upper (take (length p) s) = map upper p)"

definition digit_chars :: string where
  "digit_chars = ''0123456789''"

definition word_chars :: string where
  "word_chars = ''abcdefghijklmnopqrstuvwxyzABCDEFGHIJKLMNOPQRSTUVWXYZ0123456789_''"

text \<open>\<open>\s\<close>: tab, line feed, vertical tab, form feed, carriage return, space, no-break space.\<close>

definition space_chars :: string where
  "space_chars = [CHR 0x09, CHR 0x0A, CHR 0x0B, CHR 0x0C, CHR 0x0D, CHR 0x20, CHR 0xA0]"

text \<open>ctags: \<^verbatim>\<open>/\[([\w\d\s\\/.:]+)\]/gi\<close>\<close>

definition ctags_class :: "char \<Rightarrow> bool" where
  "ctags_class c \<longleftrightarrow>
     c \<in> set word_chars \<or> c \<in> set digit_chars \<or> c \<in> set space_chars
     \<or> c \<in> set [CHR 0x5C, CHR ''/'', CHR ''.'', CHR '':'']"

definition ctags_match_at :: "string \<Rightarrow> (nat \<times> jsval list) option" where
  "ctags_match_at s =
     (case s of
        [] \<Rightarrow> None
      | c # rest \<Rightarrow>
          (let run = takeWhile ctags_class rest
           in if c = CHR ''['' \<and> run \<noteq> [] \<and> take 1 (drop (length run) rest) = '']''
              then Some (length run + 2, [JStr run])
              else None))"

text \<open>cinfo: \<^verbatim>\<open>/(\[[0-9:]+\]) (\[[\[A-Z\s\\/.\]]+: )/gi\<close>\<close>

definition cinfo_time_class :: "char \<Rightarrow> bool" where
  "cinfo_time_class c \<longleftrightarrow> c \<in> set digit_chars \<or> c = CHR '':''"

definition cinfo_level_class :: "char \<Rightarrow> bool" where
  "cinfo_level_class c \<longleftrightarrow>
     upper c \<in> set ''ABCDEFGHIJKLMNOPQRSTUVWXYZ'' \<or> c \<in> set space_chars
     \<or> c \<in> set [CHR ''['', CHR 0x5C, CHR ''/'', CHR ''.'', CHR '']'']"

definition cinfo_match_at :: "string \<Rightarrow> (nat \<times> jsval list) option" where
  "cinfo_match_at s =
     (case s of
        [] \<Rightarrow> None
      | c # r1 \<Rightarrow>
          (let run1 = takeWhile cinfo_time_class r1;
               r2 = drop (length run1) r1;
               r3 = drop 3 r2;
               run2 = takeWhile cinfo_level_class r3;
               r4 = drop (length run2) r3
           in if c = CHR ''['' \<and> run1 \<noteq> [] \<and> take 3 r2 = ''] [''
                 \<and> run2 \<noteq> [] \<and> take 2 r4 = '': ''
              then Some (length run1 + length run2 + 6,
                         [JStr (''['' @ run1 @ '']''), JStr (''['' @ run2 @ '': '')])
              else None))"

text \<open>cdone: \<^verbatim>\<open>/Done \(([0-9\.]+)s\)\!/gi\<close>\<close>

definition cdone_class :: "char \<Rightarrow> bool" where
  "cdone_class c \<longleftrightarrow> c \<in> set digit_chars \<or> c = CHR ''.''"

definition cdone_match_at :: "string \<Rightarrow> (nat \<times> jsval list) option" where
  "cdone_match_at s =
     (let rest = drop 6 s;
          run = takeWhile cdone_class rest
      in if ci_prefix ''Done ('' s \<and> run \<noteq> [] \<and> ci_prefix ''s)!'' (drop (length run) rest)
         then Some (length run + 9, [JStr run])
         else None)"

definition regex_ctags :: regexp where
  "regex_ctags = \<lparr>global = True, match_at = ctags_match_at\<rparr>"

definition regex_cinfo :: regexp where
  "regex_cinfo = \<lparr>global = True, match_at = cinfo_match_at\<rparr>"

definition regex_cdone :: regexp where
  "regex_cdone = \<lparr>global = True, match_at = cdone_match_at\<rparr>"

subsection \<open>String.prototype.replace\<close>

text \<open>
  \<open>s.replace(regex, '')\<close> with a global regex removes every match, left to right;
  an empty match removes nothing and the search moves on by one character.
\<close>

fun replace_regexp :: "(string \<Rightarrow> (nat \<times> jsval list) option) \<Rightarrow> string \<Rightarrow> string" where
  "replace_regexp m [] = []"
| "replace_regexp m (c # cs) =
     (case m (c # cs) of
        Some (Suc k, caps) \<Rightarrow> replace_regexp m (drop k cs)
      | _ \<Rightarrow> c # replace_regexp m cs)"

text \<open>\<open>s.replace(pat, '')\<close> with a string pattern removes its first occurrence only.\<close>

fun replace_first :: "string \<Rightarrow> string \<Rightarrow> string" where
  "replace_first pat [] = []"
| "replace_first pat (c # cs) =
     (if take (length pat) (c # cs) = pat then drop (length pat) (c # cs)
      else c # replace_first pat cs)"

section \<open>The mod manifest and its scan (scanForNewMods)\<close>

text \<open>
  A manifest entry is the object \<open>{filename, hash}\<close> that buildModDatabase and
  scanForNewMods create and that mods.json stores. No code path gives such an object
  an \<open>index\<close> property, so reading \<open>mod_installed.index\<close> yields \<open>undefined\<close>.
\<close>

record ModRecord =
  filename :: string
  hash :: string

definition mod_index :: "ModRecord \<Rightarrow> nat option" where
  "mod_index obj = None"

text \<open>
  \<open>xs[i]\<close> on a JavaScript array: \<open>undefined\<close> (here \<open>None\<close>) when the index is
  \<open>undefined\<close> or out of range.
\<close>

fun array_get :: "'a list \<Rightarrow> nat option \<Rightarrow> 'a option" where
  "array_get xs None = None"
| "array_get xs (Some i) = (if i < length xs then Some (xs ! i) else None)"

text \<open>An element of \<open>modEventQ\<close>, the object \<open>{data, event}\<close>.\<close>

record queued =
  qdata :: ModRecord
  qevent :: string

text \<open>
  An entry of the mod directory: a subdirectory, or a file with the hex SHA-512 digest
  of its contents (what \<open>hash.read()\<close> returns once the stream has ended).
\<close>

datatype dirent = Directory | RegularFile string

text \<open>
  The mod directory is \<open>None\<close> when it cannot be read (\<open>fs.readdir\<close> reports an error),
  otherwise its entries, listed in the order in which the scan finishes with them
  (async.each starts every file at once; the \<open>end\<close> callbacks run as the streams
  finish). \<open>fs.existsSync(path.join(mod_dir, name))\<close> holds for the names listed.
\<close>

type_synonym mod_dir = "(string \<times> dirent) list option"

definition existsSync_mod :: "mod_dir \<Rightarrow> string \<Rightarrow> bool" where
  "existsSync_mod d name = (case d of None \<Rightarrow> False | Some es \<Rightarrow> name \<in> set (map fst es))"

text \<open>\<open>xs.splice(i, 1)\<close>\<close>

definition splice1 :: "nat \<Rightarrow> 'a list \<Rightarrow> 'a list" where
  "splice1 i xs = take i xs @ drop (Suc i) xs"

text \<open>
  The deletion loop, lines 256-269. \<open>for (let mod of self.mods)\<close> walks the live array
  with an iterator index that starts at 0, is compared with the current length before
  every step and grows by one per step; the counter \<open>i\<close> of the source starts at 0 and
  grows by one per step as well, so one number stands for both. The array is spliced
  while it is being walked.
\<close>

function deletion_pass ::
  "(string \<Rightarrow> bool) \<Rightarrow> nat \<Rightarrow> ModRecord list \<Rightarrow> queued list \<Rightarrow> ModRecord list \<times> queued list"
where
  "deletion_pass ex i mods modEventQ =
     (if i < length mods then
        (let m = mods ! i in
         if \<not> ex (filename m)
         then deletion_pass ex (Suc i) (splice1 i mods)
                (modEventQ @ [\<lparr>qdata = m, qevent = ''modDeletion''\<rparr>])
         else deletion_pass ex (Suc i) mods modEventQ)
      else (mods, modEventQ))"
  by pat_completeness auto
termination
  by (relation "measure (\<lambda>(ex, i, mods, q). length mods - i)") (auto simp: splice1_def)

text \<open>
  The \<open>end\<close> callback of one file, lines 294-332: \<open>name\<close> is the file name (\<open>mod\<close> in
  the source, an operator of HOL), \<open>modHash\<close> the digest read from the hash stream.
\<close>

definition on_end ::
  "string \<Rightarrow> string \<Rightarrow> ModRecord list \<times> queued list \<Rightarrow> error + ModRecord list \<times> queued list"
where
  "on_end name modHash s =
     (case s of (mods, modEventQ) \<Rightarrow>
        (case filter (\<lambda>obj. filename obj = name) mods of
           [] \<Rightarrow>
             (let mod_installed = \<lparr>filename = name, hash = modHash\<rparr>
              in Inr (mods @ [mod_installed],
                      modEventQ @ [\<lparr>qdata = mod_installed, qevent = ''modAddition''\<rparr>]))
         | mod_installed # _ \<Rightarrow>
             if modHash \<noteq> hash mod_installed then
               (case mod_index mod_installed of
                  None \<Rightarrow> Inl TypeError
                | Some i \<Rightarrow>
                    (case array_get mods (Some i) of
                       None \<Rightarrow> Inl TypeError
                     | Some target \<Rightarrow>
                         (let updated = target\<lparr>hash := modHash\<rparr>
                          in Inr (mods[i := updated],
                                  modEventQ @ [\<lparr>qdata = updated, qevent = ''modUpdated''\<rparr>]))))
             else Inr (mods, modEventQ)))"

text \<open>The iterator of async.each, lines 280-336: subdirectories are passed over.\<close>

fun each_file ::
  "(string \<times> dirent) list \<Rightarrow> ModRecord list \<times> queued list
     \<Rightarrow> error + ModRecord list \<times> queued list"
where
  "each_file [] s = Inr s"
| "each_file ((name, Directory) # files) s = each_file files s"
| "each_file ((name, RegularFile h) # files) s =
     (case on_end name h s of
        Inl e \<Rightarrow> Inl e
      | Inr s' \<Rightarrow> each_file files s')"

text \<open>
  What is handed to \<open>self.events.emit(name, payload)\<close>: the batch \<open>{mods: data}\<close> of a
  scan, the status string of the supervisor, the array of a console line.
\<close>

datatype payload = Mods "ModRecord list" | Status string | Console jsval

text \<open>What is written to disk.\<close>

datatype file_content = JSON_stringify "ModRecord list"

datatype fs_op =
    WriteFile path file_content   \<comment> \<open>\<open>fs.writeFile(path, data)\<close>: overwrite in place\<close>
  | Rename path path              \<comment> \<open>\<open>fs.rename(from, to)\<close>\<close>

text \<open>sendEvents, lines 346-362. The entries of \<open>data\<close> are objects, so \<open>data[0]\<close> is
  \<open>undefined\<close> exactly when \<open>data\<close> is empty.\<close>

definition sendEvents :: "queued list \<Rightarrow> string \<Rightarrow> (string \<times> payload) list" where
  "sendEvents a ev =
     (let data = map qdata (filter (\<lambda>m. qevent m = ev) a)
      in case data of
           [] \<Rightarrow> []
         | _ # _ \<Rightarrow> [(ev, Mods data)])"

text \<open>
  The final callback of async.each, lines 336-383: the three batches, then the two
  files. Its result also keeps the queue the batches were drawn from.
\<close>

record scan_result =
  manifest :: "ModRecord list"
  queue :: "queued list"
  published :: "(string \<times> payload) list"
  fs_ops :: "fs_op list"

definition scan_done :: "path \<Rightarrow> ModRecord list \<Rightarrow> queued list \<Rightarrow> scan_result" where
  "scan_done dir mods modEventQ =
     \<lparr>manifest = mods,
      queue = modEventQ,
      published =
        sendEvents modEventQ ''modAddition'' @
        sendEvents modEventQ ''modDeletion'' @
        sendEvents modEventQ ''modUpdated'',
      fs_ops =
        [WriteFile (path_join dir ''mods.json'') (JSON_stringify mods),
         WriteFile (path_join dir ''clientmods.json'') (JSON_stringify [])]\<rparr>"

text \<open>
  scanForNewMods, lines 235-387, with the work of its callbacks: \<open>dir\<close> is
  \<open>this.minecraft.dir\<close>, \<open>this_mods\<close> is \<open>this.mods\<close> (\<open>None\<close> for \<open>undefined\<close>), \<open>d\<close> the
  mod directory. \<open>clientMods\<close> stays the empty array: line 243 tests the array itself,
  not the path.
\<close>

definition scanForNewMods ::
  "path \<Rightarrow> ModRecord list option \<Rightarrow> mod_dir \<Rightarrow> error + scan_result"
where
  "scanForNewMods dir this_mods d =
     (case this_mods of
        None \<Rightarrow> Inl ProcessExit
      | Some mods0 \<Rightarrow>
          (let s1 = deletion_pass (existsSync_mod d) 0 mods0 []
           in case d of
                None \<Rightarrow> Inl ProcessExit
              | Some files \<Rightarrow>
                  (case each_file files s1 of
                     Inl e \<Rightarrow> Inl e
                   | Inr (mods, modEventQ) \<Rightarrow> Inr (scan_done dir mods modEventQ))))"

section \<open>The file system\<close>

text \<open>
  Regular files and directories, as a tree below the root; a directory holds its
  entries by name. Symbolic links and permissions are left out.
\<close>

datatype fsnode = File | Dir "(string \<times> fsnode) list"

fun fs_lookup :: "fsnode \<Rightarrow> path \<Rightarrow> fsnode option" where
  "fs_lookup n [] = Some n"
| "fs_lookup File (c # cs) = None"
| "fs_lookup (Dir es) (c # cs) =
     (case map_of es c of
        None \<Rightarrow> None
      | Some n \<Rightarrow> fs_lookup n cs)"

definition existsSync :: "fsnode \<Rightarrow> path \<Rightarrow> bool" where
  "existsSync fs p \<longleftrightarrow> fs_lookup fs p \<noteq> None"

fun modify_at :: "path \<Rightarrow> (fsnode \<Rightarrow> fsnode) \<Rightarrow> fsnode \<Rightarrow> fsnode" where
  "modify_at [] f n = f n"
| "modify_at (c # cs) f File = File"
| "modify_at (c # cs) f (Dir es) =
     (case map_of es c of
        None \<Rightarrow> Dir es
      | Some n \<Rightarrow> Dir (AList.update c (modify_at cs f n) es))"

fun remove_child :: "string \<Rightarrow> fsnode \<Rightarrow> fsnode" where
  "remove_child c File = File"
| "remove_child c (Dir es) = Dir (AList.delete c es)"

definition remove_at :: "path \<Rightarrow> fsnode \<Rightarrow> fsnode" where
  "remove_at p fs = (if p = [] then fs else modify_at (butlast p) (remove_child (last p)) fs)"

text \<open>\<open>fs.unlinkSync\<close> removes a file, \<open>fs.rmdirSync\<close> an empty directory; both throw otherwise.\<close>

definition unlinkSync :: "path \<Rightarrow> fsnode \<Rightarrow> error + fsnode" where
  "unlinkSync p fs =
     (case fs_lookup fs p of
        None \<Rightarrow> Inl ENOENT
      | Some (Dir es) \<Rightarrow> Inl EISDIR
      | Some File \<Rightarrow> if p = [] then Inl EBUSY else Inr (remove_at p fs))"

definition rmdirSync :: "path \<Rightarrow> fsnode \<Rightarrow> error + fsnode" where
  "rmdirSync p fs =
     (case fs_lookup fs p of
        None \<Rightarrow> Inl ENOENT
      | Some File \<Rightarrow> Inl ENOTDIR
      | Some (Dir es) \<Rightarrow>
          if es \<noteq> [] then Inl ENOTEMPTY
          else if p = [] then Inl EBUSY
          else Inr (remove_at p fs))"

text \<open>In a well-formed tree no directory lists a name twice.\<close>

fun well_formed :: "fsnode \<Rightarrow> bool"
  and well_formed_entries :: "(string \<times> fsnode) list \<Rightarrow> bool"
where
  "well_formed File \<longleftrightarrow> True"
| "well_formed (Dir es) \<longleftrightarrow> well_formed_entries es"
| "well_formed_entries [] \<longleftrightarrow> True"
| "well_formed_entries ((k, n) # es) \<longleftrightarrow>
     k \<notin> fst ` set es \<and> well_formed n \<and> well_formed_entries es"

section \<open>The process supervisor\<close>

text \<open>
  The fields of the \<open>Mc\<close> object that the supervisor reads and writes:
  \<open>this.minecraft.dir\<close>; \<open>this.pty.running\<close> (\<open>undefined\<close> counts as false);
  \<open>this.pty.state\<close>, the terminal, given by the data written into it so far
  (\<open>None\<close> for \<open>undefined\<close>); the events emitted on \<open>this.events\<close>, oldest first; the
  chunks written to the log stream; and \<open>lastIndex\<close> of \<open>regex.ctags\<close> and \<open>regex.cdone\<close>.
\<close>

record Mc =
  minecraft_dir :: path
  pty_running :: bool
  pty_state :: "string list option"
  emitted :: "(string \<times> payload) list"
  logfile :: "string list"
  ctags_lastIndex :: nat
  cdone_lastIndex :: nat

text \<open>The object after the constructor, lines 120-153.\<close>

definition constructor :: "path \<Rightarrow> Mc" where
  "constructor dir =
     \<lparr>minecraft_dir = dir, pty_running = False, pty_state = None, emitted = [],
      logfile = [], ctags_lastIndex = 0, cdone_lastIndex = 0\<rparr>"

text \<open>
  startServer, lines 457-555, as far as the supervisor goes: the log stream is opened
  (line 475), the terminal is spawned and recorded (lines 499-509), \<open>status: starting\<close>
  is emitted (line 512), and the two handlers below are registered.
\<close>

definition startServer :: "Mc \<Rightarrow> Mc" where
  "startServer this =
     this\<lparr>logfile := [],
          pty_running := True,
          pty_state := Some [],
          emitted := emitted this @ [(''status'', Status ''starting'')]\<rparr>"

text \<open>The message of a chunk, lines 522-525.\<close>

definition cinfo_of :: "string \<Rightarrow> string" where
  "cinfo_of data =
     replace_first [CHR 0x1B, CHR ''['', CHR ''m'', CHR ''>'']
       (filter (\<lambda>c. c \<noteq> CHR 0x0A)
         (filter (\<lambda>c. c \<noteq> CHR 0x0D)
           (replace_regexp (match_at regex_cinfo) data)))"

text \<open>
  Lines 519-528: \<open>res\<close> once the message has been pushed, and \<open>lastIndex\<close> of
  \<open>regex.ctags\<close>. \<open>res.push\<close> throws when \<open>res\<close> is not an array.
\<close>

definition parse_chunk :: "nat \<Rightarrow> string \<Rightarrow> (error + jsval list \<times> nat) option" where
  "parse_chunk lastIndex data =
     (case getRegexMatches (RegExp regex_ctags) lastIndex data of
        None \<Rightarrow> None
      | Some (JArr tags, li) \<Rightarrow> Some (Inr (tags @ [JStr (cinfo_of data)], li))
      | Some (_, li) \<Rightarrow> Some (Inl TypeError))"

text \<open>
  The handler of the terminal's \<open>data\<close> event, lines 515-542. The chunk arrives as a
  string, which \<open>toString\<close> returns as it is.
\<close>

definition term_on_data :: "Mc \<Rightarrow> string \<Rightarrow> (error + Mc) option" where
  "term_on_data self data =
     (case parse_chunk (ctags_lastIndex self) data of
        None \<Rightarrow> None
      | Some (Inl e) \<Rightarrow> Some (Inl e)
      | Some (Inr (res, li)) \<Rightarrow>
          (let console =
                 (if js_nth res 0 \<noteq> JNull \<and> js_nth res 0 \<noteq> JStr '' ''
                     \<and> js_nth res 0 \<noteq> JStr []
                  then [(''console'', Console (JArr res))] else []);
               (isDone, cli) = regexp_exec regex_cdone (cdone_lastIndex self) (cinfo_of data);
               up = (if isDone \<noteq> None then [(''status'', Status ''up'')] else [])
           in Some (Inr (self\<lparr>ctags_lastIndex := li,
                              cdone_lastIndex := cli,
                              emitted := emitted self @ console @ up,
                              logfile := logfile self @ [data @ [CHR 0x0A]]\<rparr>))))"

text \<open>
  The handler of the terminal's \<open>exit\<close> event, lines 545-554. The log file is unlinked
  first; when that throws, nothing after it runs. The listeners it drops at its end are
  not part of this state.
\<close>

definition term_on_exit :: "Mc \<Rightarrow> fsnode \<Rightarrow> error + Mc \<times> fsnode" where
  "term_on_exit self fs =
     (case unlinkSync (path_join (minecraft_dir self) ''node-mcf.log'') fs of
        Inl e \<Rightarrow> Inl e
      | Inr fs' \<Rightarrow>
          Inr (self\<lparr>emitted := emitted self @ [(''status'', Status ''down'')],
                    pty_running := False,
                    pty_state := None\<rparr>, fs'))"

text \<open>isPtyRunning, writeToPty and sendCommand, lines 562-602.\<close>

definition isPtyRunning :: "Mc \<Rightarrow> bool" where
  "isPtyRunning this = (if pty_running this then True else False)"

definition writeToPty :: "Mc \<Rightarrow> string \<Rightarrow> error + bool \<times> Mc" where
  "writeToPty this data =
     (if isPtyRunning this then
        (case pty_state this of
           None \<Rightarrow> Inl TypeError
         | Some written \<Rightarrow> Inr (True, this\<lparr>pty_state := Some (written @ [data @ [CHR 0x0D]])\<rparr>))
      else Inr (False, this))"

definition sendCommand :: "Mc \<Rightarrow> string \<Rightarrow> error + bool \<times> Mc" where
  "sendCommand this cmd =
     (case writeToPty this cmd of
        Inl e \<Rightarrow> Inl e
      | Inr (res, this') \<Rightarrow> if \<not> res then Inr (False, this') else Inr (True, this'))"

text \<open>
  The lifecycle of section 4.1 of the specification,
  \<open>Stopped --start--> Starting --ready--> Running --exit--> Stopped\<close>. The source keeps
  no such variable; the state is read off the last status the supervisor has published.
\<close>

datatype lifecycle = Stopped | Starting | Running

definition spec_lifecycle :: "Mc \<Rightarrow> lifecycle" where
  "spec_lifecycle this =
     (let statuses = map snd (filter (\<lambda>e. fst e = ''status'') (emitted this))
      in if statuses = [] then Stopped
         else if last statuses = Status ''starting'' then Starting
         else if last statuses = Status ''up'' then Running
         else Stopped)"

section \<open>removeWorld\<close>

text \<open>
  The body of deleteFolderRecursive, lines 661-669, once \<open>fs.existsSync(path)\<close> has
  held. \<open>readdirSync\<close> and \<open>lstatSync\<close> report the node found at the path, which
  nothing has touched before the call reaches it; the recursion follows that node, and
  the file system is threaded through the deletions. \<open>readdirSync\<close> throws on a
  regular file.
\<close>

fun delete_found :: "path \<Rightarrow> fsnode \<Rightarrow> fsnode \<Rightarrow> error + fsnode"
  and forEach_file :: "path \<Rightarrow> (string \<times> fsnode) list \<Rightarrow> fsnode \<Rightarrow> error + fsnode"
where
  "delete_found p File fs = Inl ENOTDIR"
| "delete_found p (Dir es) fs =
     (case forEach_file p es fs of
        Inl e \<Rightarrow> Inl e
      | Inr fs' \<Rightarrow> rmdirSync p fs')"
| "forEach_file p [] fs = Inr fs"
| "forEach_file p ((file, File) # es) fs =
     (case unlinkSync (p @ [file]) fs of
        Inl e \<Rightarrow> Inl e
      | Inr fs' \<Rightarrow> forEach_file p es fs')"
| "forEach_file p ((file, Dir cs) # es) fs =
     (case delete_found (p @ [file]) (Dir cs) fs of
        Inl e \<Rightarrow> Inl e
      | Inr fs' \<Rightarrow> forEach_file p es fs')"

text \<open>deleteFolderRecursive, lines 659-671.\<close>

definition deleteFolderRecursive :: "path \<Rightarrow> fsnode \<Rightarrow> error + fsnode" where
  "deleteFolderRecursive p fs =
     (case fs_lookup fs p of
        None \<Rightarrow> Inr fs
      | Some node \<Rightarrow> delete_found p node fs)"

text \<open>The response object: \<open>{success: true}\<close> or \<open>{success: false, reason: ...}\<close>.\<close>

datatype response = Success | Failure string

text \<open>removeWorld, lines 639-686; \<open>name\<close> is a string, so \<open>!name\<close> holds for \<open>''\<close> only.\<close>

definition removeWorld :: "Mc \<Rightarrow> fsnode \<Rightarrow> string \<Rightarrow> error + response \<times> fsnode" where
  "removeWorld this fs name =
     (let worldDir = path_join (minecraft_dir this) name
      in if name = [] then Inr (Failure ''INVOKE'', fs)
         else if isPtyRunning this then Inr (Failure ''PTY'', fs)
         else if existsSync fs worldDir then
           (case deleteFolderRecursive worldDir fs of
              Inl e \<Rightarrow> Inl e
            | Inr fs' \<Rightarrow> Inr (Success, fs'))
         else Inr (Failure ''NOTEXIST'', fs))"

section \<open>Notions used in the statements\<close>

text \<open>The data handler run on the chunks of a console stream, in the order of arrival.\<close>

fun run_chunks :: "Mc \<Rightarrow> string list \<Rightarrow> (error + Mc) option" where
  "run_chunks self [] = Some (Inr self)"
| "run_chunks self (data # rest) =
     (case term_on_data self data of
        None \<Rightarrow> None
      | Some (Inl e) \<Rightarrow> Some (Inl e)
      | Some (Inr self') \<Rightarrow> run_chunks self' rest)"

definition status_events :: "Mc \<Rightarrow> (string \<times> payload) list" where
  "status_events this = filter (\<lambda>e. fst e = ''status'') (emitted this)"

definition console_events :: "(string \<times> payload) list \<Rightarrow> (string \<times> payload) list" where
  "console_events es = filter (\<lambda>e. fst e = ''console'') es"

text \<open>A message holds the ready marker when \<open>regex.cdone\<close> matches somewhere in it.\<close>

definition ready_marker :: "string \<Rightarrow> bool" where
  "ready_marker msg \<longleftrightarrow> search_from (match_at regex_cdone) msg 0 \<noteq> None"

text \<open>The records a scan has queued for one kind of event, and the batches published for it.\<close>

definition affected :: "queued list \<Rightarrow> string \<Rightarrow> ModRecord list" where
  "affected q ev = map qdata (filter (\<lambda>m. qevent m = ev) q)"

definition batches_of :: "string \<Rightarrow> (string \<times> payload) list \<Rightarrow> (string \<times> payload) list" where
  "batches_of ev es = filter (\<lambda>e. fst e = ev) es"

text \<open>
  The discipline section 4.3 of the specification asks for: the target is never written
  in place, and a rename moves a file from another path onto it.
\<close>

fun is_rename_to :: "path \<Rightarrow> fs_op \<Rightarrow> bool" where
  "is_rename_to target (Rename src dst) \<longleftrightarrow> dst = target \<and> src \<noteq> target"
| "is_rename_to target (WriteFile p c) \<longleftrightarrow> False"

fun is_write_to :: "path \<Rightarrow> fs_op \<Rightarrow> bool" where
  "is_write_to target (WriteFile p c) \<longleftrightarrow> p = target"
| "is_write_to target (Rename src dst) \<longleftrightarrow> False"

definition spec_atomic_replace :: "fs_op list \<Rightarrow> path \<Rightarrow> bool" where
  "spec_atomic_replace ops target \<longleftrightarrow>
     list_ex (is_rename_to target) ops \<and> \<not> list_ex (is_write_to target) ops"

section \<open>Example inputs\<close>

definition example_mc :: Mc where
  "example_mc = constructor [''srv'']"

definition example_fs :: fsnode where
  "example_fs =
     Dir [(''srv'',
           Dir [(''eula.txt'', File),
                (''node-mcf.log'', File),
                (''world'', Dir [(''level.dat'', File), (''region'', Dir [(''r.0.0.mca'', File)])])])]"

text \<open>The example server once started; after the ready line; after one more line.\<close>

definition example_started :: Mc where
  "example_started = startServer example_mc"

definition example_ready :: Mc where
  "example_ready =
     example_started
       \<lparr>emitted := [(''status'', Status ''starting''),
                    (''console'', Console (JArr [JStr ''Done (1s)!''])),
                    (''status'', Status ''up'')],
        logfile := [''Done (1s)!'' @ [CHR 0x0A]],
        cdone_lastIndex := 10\<rparr>"

definition example_idle :: Mc where
  "example_idle =
     example_started
       \<lparr>emitted := [(''status'', Status ''starting''),
                    (''console'', Console (JArr [JStr ''Done (1s)!''])),
                    (''status'', Status ''up''),
                    (''console'', Console (JArr [JStr ''hello'']))],
        logfile := [''Done (1s)!'' @ [CHR 0x0A], ''hello'' @ [CHR 0x0A]]\<rparr>"

text \<open>The example server and file system once the exit handler has run.\<close>

definition example_exited :: Mc where
  "example_exited =
     example_ready
       \<lparr>emitted := emitted example_ready @ [(''status'', Status ''down'')],
        pty_running := False,
        pty_state := None\<rparr>"

definition example_fs_exited :: fsnode where
  "example_fs_exited =
     Dir [(''srv'',
           Dir [(''eula.txt'', File),
                (''world'', Dir [(''level.dat'', File), (''region'', Dir [(''r.0.0.mca'', File)])])])]"

definition a_jar :: "string \<Rightarrow> ModRecord" where
  "a_jar h = \<lparr>filename = ''a.jar'', hash = h\<rparr>"

definition b_jar :: "string \<Rightarrow> ModRecord" where
  "b_jar h = \<lparr>filename = ''b.jar'', hash = h\<rparr>"

section \<open>Auxiliary facts\<close>

declare search_from.simps [simp del] deletion_pass.simps [simp del]

subsection \<open>The tag loop ends\<close>

lemma search_from_found:
  "search_from m s i = Some (j, len, caps) \<Longrightarrow>
     i \<le> j \<and> j \<le> length s \<and> m (drop j s) = Some (len, caps)"
proof (induction m s i rule: search_from.induct)
  case (1 m s i)
  show ?case
  proof (cases "length s < i")
    case True
    with "1.prems" show ?thesis by (simp add: search_from.simps [of m s i])
  next
    case False
    show ?thesis
    proof (cases "m (drop i s)")
      case None
      with False "1.prems" have "search_from m s (Suc i) = Some (j, len, caps)"
        by (simp add: search_from.simps [of m s i])
      with "1.IH" [OF False None] show ?thesis by simp
    next
      case (Some a)
      with False "1.prems" show ?thesis
        by (cases a) (auto simp: search_from.simps [of m s i])
    qed
  qed
qed

lemma regexp_exec_advances:
  assumes "global r"
    and "\<forall>t len caps. match_at r t = Some (len, caps) \<longrightarrow> 0 < len"
    and "regexp_exec r li s = (Some match, li')"
  shows "li < li' \<and> li \<le> length s"
proof -
  from assms(1,3) obtain j len caps where
    found: "search_from (match_at r) s li = Some (j, len, caps)" and li': "li' = j + len"
    by (auto simp: regexp_exec_def split: option.splits)
  from search_from_found [OF found] assms(2) have "li \<le> j" "j \<le> length s" "0 < len"
    by blast+
  with li' show ?thesis by simp
qed

text \<open>
  A global regex whose matches are never empty moves \<open>lastIndex\<close> forward with every
  match, so the loop of getRegexMatches returns.
\<close>

lemma collect_matches_total:
  assumes "global r"
    and "\<forall>t len caps. match_at r t = Some (len, caps) \<longrightarrow> 0 < len"
  shows "\<exists>res. collect_matches r s li acc = Some res"
proof (induction "Suc (length s) - li" arbitrary: li acc rule: less_induct)
  case less
  show ?case
  proof (cases "regexp_exec r li s")
    case (Pair found li')
    show ?thesis
    proof (cases found)
      case None
      with Pair show ?thesis by (simp add: collect_matches.simps [of r s li acc])
    next
      case (Some match)
      with Pair have "regexp_exec r li s = (Some match, li')" by simp
      from regexp_exec_advances [OF assms this]
      have "Suc (length s) - li' < Suc (length s) - li" by arith
      from less [OF this] obtain res where
        "collect_matches r s li'
           (acc @ [if 2 < length match then JArr (tl match) else js_nth match 1]) = Some res"
        by blast
      with Pair Some show ?thesis by (simp add: collect_matches.simps [of r s li acc])
    qed
  qed
qed

lemma ctags_match_positive: "ctags_match_at t = Some (len, caps) \<Longrightarrow> 0 < len"
  by (auto simp: ctags_match_at_def Let_def split: list.splits if_splits)

lemma parse_chunk_total:
  "\<exists>tags li'. parse_chunk li data = Some (Inr (tags @ [JStr (cinfo_of data)], li'))"
proof -
  have "\<exists>res. collect_matches regex_ctags data li [] = Some res"
    by (rule collect_matches_total) (auto simp: regex_ctags_def dest: ctags_match_positive)
  then obtain ms li' where "collect_matches regex_ctags data li [] = Some (ms, li')"
    by auto
  then show ?thesis by (simp add: parse_chunk_def getRegexMatches_def)
qed

subsection \<open>The data handler leaves the terminal alone\<close>

lemma term_on_data_keeps_pty:
  assumes "term_on_data self data = Some (Inr self')"
  shows "pty_running self' = pty_running self \<and> pty_state self' = pty_state self"
  using assms
  by (auto simp: term_on_data_def Let_def split: option.splits sum.splits prod.splits)

lemma run_chunks_keeps_pty:
  "run_chunks self chunks = Some (Inr self') \<Longrightarrow>
     pty_running self' = pty_running self \<and> pty_state self' = pty_state self"
proof (induction chunks arbitrary: self)
  case Nil
  then show ?case by simp
next
  case (Cons data rest)
  then obtain mid where m: "term_on_data self data = Some (Inr mid)"
    and r: "run_chunks mid rest = Some (Inr self')"
    by (auto split: option.splits sum.splits)
  from Cons.IH [OF r] term_on_data_keeps_pty [OF m] show ?case by simp
qed

subsection \<open>A scan that completes went through its final callback\<close>

lemma scan_completed:
  assumes "scanForNewMods dir this_mods d = Inr r"
  shows "r = scan_done dir (manifest r) (queue r)"
  using assms
  by (auto simp: scanForNewMods_def scan_done_def Let_def split: option.splits sum.splits)

lemma batches_of_sendEvents:
  "batches_of ev (sendEvents q ev') =
     (if ev = ev' \<and> affected q ev \<noteq> [] then [(ev, Mods (affected q ev))] else [])"
  by (auto simp: batches_of_def sendEvents_def affected_def Let_def split: list.splits)

subsection \<open>deleteFolderRecursive removes a directory tree\<close>

text \<open>First, how lookups and changes at a path go together.\<close>

lemma fs_lookup_append:
  "fs_lookup fs (p @ q) = (case fs_lookup fs p of None \<Rightarrow> None | Some n \<Rightarrow> fs_lookup n q)"
proof (induction p arbitrary: fs)
  case Nil
  show ?case by simp
next
  case (Cons c cs)
  show ?case by (cases fs) (auto simp: Cons.IH split: option.splits)
qed

lemma fs_lookup_modify_at:
  "fs_lookup fs p = Some n \<Longrightarrow> fs_lookup (modify_at p f fs) p = Some (f n)"
proof (induction p arbitrary: fs)
  case Nil
  then show ?case by simp
next
  case (Cons c cs)
  then show ?case
    by (cases fs) (auto simp: update_conv' split: option.splits)
qed

lemma modify_at_twice:
  "modify_at p g (modify_at p f fs) = modify_at p (\<lambda>n. g (f n)) fs"
proof (induction p arbitrary: fs)
  case Nil
  show ?case by simp
next
  case (Cons c cs)
  show ?case
    by (cases fs) (auto simp: update_conv' Cons.IH split: option.splits)
qed

lemma modify_at_append:
  "modify_at (p @ q) f fs = modify_at p (modify_at q f) fs"
proof (induction p arbitrary: fs)
  case Nil
  show ?case by simp
next
  case (Cons c cs)
  show ?case by (cases fs) (auto simp: Cons.IH split: option.splits)
qed

lemma modify_at_same:
  "fs_lookup fs p = Some n \<Longrightarrow> f n = n \<Longrightarrow> modify_at p f fs = fs"
proof (induction p arbitrary: fs)
  case Nil
  then show ?case by simp
next
  case (Cons c cs)
  show ?case
  proof (cases fs)
    case File
    then show ?thesis by simp
  next
    case (Dir es)
    with Cons.prems obtain sub where sub: "map_of es c = Some sub" "fs_lookup sub cs = Some n"
      by (auto split: option.splits)
    from Cons.IH [OF sub(2) Cons.prems(2)] sub(1) Dir show ?thesis
      by (simp add: update_triv)
  qed
qed

lemma remove_at_snoc: "remove_at (p @ [c]) fs = modify_at p (remove_child c) fs"
  by (simp add: remove_at_def)

lemma remove_child_after_modify:
  "remove_child c (modify_at [c] f n) = remove_child c n"
  by (cases n) (auto simp: delete_update_same split: option.splits)

lemma remove_at_after_modify:
  assumes "p \<noteq> []"
  shows "remove_at p (modify_at p f fs) = remove_at p fs"
proof -
  from assms obtain q c where p: "p = q @ [c]" by (metis append_butlast_last_id)
  show ?thesis
    unfolding p
    by (simp add: remove_at_snoc modify_at_append modify_at_twice remove_child_after_modify
          del: modify_at.simps)
qed

lemma entry_removed:
  assumes "fs_lookup fs p = Some (Dir ((k, n) # es))" and "k \<notin> fst ` set es"
  shows "fs_lookup (remove_at (p @ [k]) fs) p = Some (Dir es)"
  using fs_lookup_modify_at [OF assms(1), of "remove_child k"] assms(2)
  by (simp add: remove_at_snoc)

lemma emptied_after_entry:
  "modify_at p (\<lambda>_. Dir []) (remove_at (p @ [k]) fs) = modify_at p (\<lambda>_. Dir []) fs"
  by (simp add: remove_at_snoc modify_at_twice)

text \<open>
  While the entries of the directory at \<open>p\<close> are being walked, that directory holds
  exactly the entries still to come; once they are gone it is empty and \<open>rmdirSync\<close>
  succeeds.
\<close>

lemma delete_tree:
  "well_formed node \<Longrightarrow> fs_lookup fs p = Some node \<Longrightarrow> p \<noteq> [] \<Longrightarrow> node \<noteq> File
     \<Longrightarrow> delete_found p node fs = Inr (remove_at p fs)"
  "well_formed_entries es \<Longrightarrow> fs_lookup fs p = Some (Dir es)
     \<Longrightarrow> forEach_file p es fs = Inr (modify_at p (\<lambda>_. Dir []) fs)"
proof (induction p node fs and p es fs rule: delete_found_forEach_file.induct)
  case (1 p fs)
  then show ?case by simp
next
  case (2 p es fs)
  then have each: "forEach_file p es fs = Inr (modify_at p (\<lambda>_. Dir []) fs)" by simp
  from fs_lookup_modify_at [OF "2.prems"(2), of "\<lambda>_. Dir []"]
  have "rmdirSync p (modify_at p (\<lambda>_. Dir []) fs)
          = Inr (remove_at p (modify_at p (\<lambda>_. Dir []) fs))"
    using "2.prems"(3) by (simp add: rmdirSync_def)
  with each "2.prems"(3) show ?case by (simp add: remove_at_after_modify)
next
  case (3 p fs)
  then show ?case by (simp add: modify_at_same)
next
  case (4 p k es fs)
  from "4.prems" have fresh: "k \<notin> fst ` set es" and rest: "well_formed_entries es"
    by simp_all
  from "4.prems"(2) have "fs_lookup fs (p @ [k]) = Some File"
    by (simp add: fs_lookup_append)
  then have unl: "unlinkSync (p @ [k]) fs = Inr (remove_at (p @ [k]) fs)"
    by (simp add: unlinkSync_def)
  from "4.IH" [OF unl rest entry_removed [OF "4.prems"(2) fresh]] unl
  show ?case by (simp add: emptied_after_entry)
next
  case (5 p k cs es fs)
  from "5.prems" have fresh: "k \<notin> fst ` set es" and rest: "well_formed_entries es"
    and sub: "well_formed (Dir cs)" by simp_all
  from "5.prems"(2) have "fs_lookup fs (p @ [k]) = Some (Dir cs)"
    by (simp add: fs_lookup_append)
  from "5.IH"(1) [OF sub this] have del:
    "delete_found (p @ [k]) (Dir cs) fs = Inr (remove_at (p @ [k]) fs)"
    by simp
  from "5.IH"(2) [OF del rest entry_removed [OF "5.prems"(2) fresh]] del
  show ?case by (simp add: emptied_after_entry)
qed

lemma removed_is_gone:
  assumes "p \<noteq> []"
  shows "\<not> existsSync (remove_at p fs) p"
proof -
  from assms obtain q c where p: "p = q @ [c]" by (metis append_butlast_last_id)
  have gone: "fs_lookup (remove_child c n) [c] = None" for n
    by (cases n) (simp_all add: delete_conv')
  show ?thesis
  proof (cases "fs_lookup fs q")
    case None
    then have "modify_at q (remove_child c) fs = fs"
    proof (induction q arbitrary: fs)
      case Nil
      then show ?case by simp
    next
      case (Cons a q)
      then show ?case by (cases fs) (auto simp: update_triv split: option.splits)
    qed
    with None show ?thesis
      by (simp add: p existsSync_def remove_at_snoc fs_lookup_append)
  next
    case (Some n)
    from fs_lookup_modify_at [OF Some, of "remove_child c"] gone show ?thesis
      by (simp add: p existsSync_def remove_at_snoc fs_lookup_append)
  qed
qed

subsection \<open>The branches of removeWorld\<close>

lemma removeWorld_refusals:
  "removeWorld this fs [] = Inr (Failure ''INVOKE'', fs)"
  "name \<noteq> [] \<Longrightarrow> pty_running this \<Longrightarrow> removeWorld this fs name = Inr (Failure ''PTY'', fs)"
  "name \<noteq> [] \<Longrightarrow> \<not> pty_running this
     \<Longrightarrow> \<not> existsSync fs (path_join (minecraft_dir this) name)
     \<Longrightarrow> removeWorld this fs name = Inr (Failure ''NOTEXIST'', fs)"
  by (simp_all add: removeWorld_def isPtyRunning_def existsSync_def)

lemma removeWorld_deletes_directory:
  assumes "name \<noteq> []" and "\<not> pty_running this"
    and "fs_lookup fs (path_join (minecraft_dir this) name) = Some (Dir es)"
    and "well_formed (Dir es)"
    and "path_join (minecraft_dir this) name \<noteq> []"
  shows "removeWorld this fs name
           = Inr (Success, remove_at (path_join (minecraft_dir this) name) fs)"
    and "\<not> existsSync (remove_at (path_join (minecraft_dir this) name) fs)
             (path_join (minecraft_dir this) name)"
proof -
  from delete_tree(1) [OF assms(4) assms(3) assms(5)] assms(1,2,3)
  show "removeWorld this fs name
          = Inr (Success, remove_at (path_join (minecraft_dir this) name) fs)"
    by (simp add: removeWorld_def isPtyRunning_def existsSync_def deleteFolderRecursive_def)
  from assms(5)
  show "\<not> existsSync (remove_at (path_join (minecraft_dir this) name) fs)
            (path_join (minecraft_dir this) name)"
    by (rule removed_is_gone)
qed

section \<open>The claims\<close>

subsection \<open>C1: sendCommand and the lifecycle\<close>

text \<open>
  C1, as stated, fails: right after startServer the supervisor is in \<open>Starting\<close> (no
  ready signal has been seen), and \<open>sendCommand('stop')\<close> returns true and writes
  \<open>stop\<close> and a carriage return to the terminal.
\<close>

theorem sendCommand_writes_while_starting:
  "spec_lifecycle (startServer (constructor [''srv''])) = Starting \<and>
   sendCommand (startServer (constructor [''srv''])) ''stop'' =
     Inr (True,
          \<lparr>minecraft_dir = [''srv''], pty_running = True,
           pty_state = Some [''stop'' @ [CHR 0x0D]],
           emitted = [(''status'', Status ''starting'')], logfile = [],
           ctags_lastIndex = 0, cdone_lastIndex = 0\<rparr>)"
  by (simp add: spec_lifecycle_def startServer_def constructor_def sendCommand_def
        writeToPty_def isPtyRunning_def)

text \<open>
  C1, amended: sendCommand writes the text followed by a carriage return to the terminal
  and returns true when \<open>pty.running\<close> is set, and returns false without writing when it
  is not. The flag is unset after the constructor, set by startServer at spawn, kept
  through every console chunk (ready signal or not), and unset by the exit handler.
\<close>

theorem sendCommand_gated_by_pty_running:
  "(pty_running s1 \<longrightarrow> pty_state s1 = Some written \<longrightarrow>
      sendCommand s1 cmd = Inr (True, s1\<lparr>pty_state := Some (written @ [cmd @ [CHR 0x0D]])\<rparr>)) \<and>
   (\<not> pty_running s2 \<longrightarrow> sendCommand s2 cmd = Inr (False, s2)) \<and>
   \<not> pty_running (constructor dir) \<and>
   spec_lifecycle (startServer this) = Starting \<and>
   (run_chunks (startServer this) chunks = Some (Inr s3) \<longrightarrow>
      pty_running s3 \<and> pty_state s3 = Some []) \<and>
   (term_on_exit s4 fs = Inr (s5, fs') \<longrightarrow> \<not> pty_running s5)"
proof (intro conjI impI)
  show "spec_lifecycle (startServer this) = Starting"
    by (simp add: spec_lifecycle_def startServer_def)
  show "run_chunks (startServer this) chunks = Some (Inr s3) \<Longrightarrow> pty_running s3"
    by (drule run_chunks_keeps_pty) (simp add: startServer_def)
  show "run_chunks (startServer this) chunks = Some (Inr s3) \<Longrightarrow> pty_state s3 = Some []"
    by (drule run_chunks_keeps_pty) (simp add: startServer_def)
  show "term_on_exit s4 fs = Inr (s5, fs') \<Longrightarrow> \<not> pty_running s5"
    by (auto simp: term_on_exit_def split: sum.splits)
qed (simp_all add: sendCommand_def writeToPty_def isPtyRunning_def constructor_def)

text \<open>
  An instance: a started server takes \<open>stop\<close>, a fresh object refuses it, the flag
  survives the ready line, and the exit handler clears it.
\<close>

theorem sendCommand_gated_by_pty_running_witness:
  "pty_running example_started \<and>
   pty_state example_started = Some [] \<and>
   sendCommand example_started ''stop'' =
     Inr (True, example_started\<lparr>pty_state := Some [''stop'' @ [CHR 0x0D]]\<rparr>) \<and>
   \<not> pty_running example_mc \<and>
   sendCommand example_mc ''stop'' = Inr (False, example_mc) \<and>
   run_chunks (startServer example_mc) [''Done (1s)!''] = Some (Inr example_ready) \<and>
   pty_running example_ready \<and>
   pty_state example_ready = Some [] \<and>
   term_on_exit example_ready example_fs = Inr (example_exited, example_fs_exited) \<and>
   \<not> pty_running example_exited"
  (is "?on \<and> ?tty \<and> ?sent \<and> ?off \<and> ?refused \<and> ?run \<and> ?on' \<and> ?tty' \<and> ?exit \<and> ?off'")
proof -
  have on: ?on and tm: ?tty and off: ?off
    by (simp_all add: example_started_def startServer_def example_mc_def constructor_def)
  have run: ?run by code_simp
  have ex: ?exit by code_simp
  note gated =
    sendCommand_gated_by_pty_running
      [where ?s1.0 = example_started and written = "[]" and cmd = "''stop''"
         and ?s2.0 = example_mc and this = example_mc and chunks = "[''Done (1s)!'']"
         and ?s3.0 = example_ready and ?s4.0 = example_ready and fs = example_fs
         and ?s5.0 = example_exited and fs' = example_fs_exited]
  from gated on tm have ?sent by simp
  moreover from gated off have ?refused by simp
  moreover from gated run have ?on' and ?tty' by simp_all
  moreover from gated ex have ?off' by simp
  ultimately show ?thesis using on tm off run ex by simp
qed

subsection \<open>C2: a changed file\<close>

text \<open>
  C2: with the manifest \<open>[{a.jar, H1}]\<close> and \<open>a.jar\<close> on disk hashing to \<open>H2\<close>, a scan
  should emit one Update carrying \<open>{a.jar, H2}\<close> and store the new hash. The source
  instead throws in the update branch, \<open>self.mods[mod_installed.index]\<close> being
  \<open>undefined\<close>: no event is emitted and nothing is stored.
\<close>

theorem scan_changed_hash_throws:
  "scanForNewMods [''srv''] (Some [a_jar ''H1'']) (Some [(''a.jar'', RegularFile ''H2'')])
     = Inl TypeError"
  by code_simp

subsection \<open>C3: the deletion pass\<close>

text \<open>
  C3: every record whose file is gone should be reported and removed. With two
  consecutive records both missing on disk, the source reports and removes the first
  only: the splice moves the second into the slot the iterator has just left.
\<close>

theorem scan_two_missing_reports_one:
  "scanForNewMods [''srv''] (Some [a_jar ''H1'', b_jar ''H2'']) (Some []) =
     Inr \<lparr>manifest = [b_jar ''H2''],
          queue = [\<lparr>qdata = a_jar ''H1'', qevent = ''modDeletion''\<rparr>],
          published = [(''modDeletion'', Mods [a_jar ''H1''])],
          fs_ops = [WriteFile [''srv'', ''mods.json''] (JSON_stringify [b_jar ''H2'']),
                    WriteFile [''srv'', ''clientmods.json''] (JSON_stringify [])]\<rparr>"
  by code_simp

subsection \<open>C4: the ready marker\<close>

text \<open>
  C4, as stated, fails: when the ready line arrives, then another line, then the ready
  line again, \<open>status: up\<close> is published twice.
\<close>

theorem status_up_published_twice:
  "run_chunks (startServer (constructor [''srv''])) [''Done (1s)!'', ''hello'', ''Done (1s)!''] =
     Some (Inr \<lparr>minecraft_dir = [''srv''], pty_running = True, pty_state = Some [],
          emitted =
            [(''status'', Status ''starting''),
             (''console'', Console (JArr [JStr ''Done (1s)!''])),
             (''status'', Status ''up''),
             (''console'', Console (JArr [JStr ''hello''])),
             (''console'', Console (JArr [JStr ''Done (1s)!''])),
             (''status'', Status ''up'')],
          logfile =
            [''Done (1s)!'' @ [CHR 0x0A], ''hello'' @ [CHR 0x0A], ''Done (1s)!'' @ [CHR 0x0A]],
          ctags_lastIndex = 0, cdone_lastIndex = 10\<rparr>)"
  by code_simp

text \<open>
  C4, amended: when the search position kept by \<open>regex.cdone\<close> is 0, a chunk whose
  message holds the ready marker makes the supervisor publish \<open>status: up\<close> once for that
  chunk, whatever has been published before; nothing limits this to once per process.
\<close>

theorem ready_marker_publishes_up:
  assumes "cdone_lastIndex self = 0" and "ready_marker (cinfo_of data)"
  shows "\<exists>self'. term_on_data self data = Some (Inr self') \<and>
           status_events self' = status_events self @ [(''status'', Status ''up'')]"
proof -
  obtain tags li where p: "parse_chunk (ctags_lastIndex self) data
      = Some (Inr (tags @ [JStr (cinfo_of data)], li))"
    using parse_chunk_total by blast
  from assms obtain match cli where
    "regexp_exec regex_cdone (cdone_lastIndex self) (cinfo_of data) = (Some match, cli)"
    by (auto simp: ready_marker_def regexp_exec_def regex_cdone_def split: option.splits)
  with p show ?thesis
    by (simp add: term_on_data_def status_events_def Let_def)
qed

text \<open>
  An instance: the server has already published \<open>status: up\<close> and has seen another line
  since; a second ready line publishes \<open>status: up\<close> again.
\<close>

theorem ready_marker_publishes_up_witness:
  "run_chunks (startServer example_mc) [''Done (1s)!'', ''hello''] = Some (Inr example_idle) \<and>
   status_events example_idle = [(''status'', Status ''starting''), (''status'', Status ''up'')] \<and>
   cdone_lastIndex example_idle = 0 \<and>
   ready_marker (cinfo_of ''[12:00:09] [Server thread/INFO]: Done (1s)!'') \<and>
   (\<exists>self'.
      term_on_data example_idle ''[12:00:09] [Server thread/INFO]: Done (1s)!''
        = Some (Inr self') \<and>
      status_events self' =
        [(''status'', Status ''starting''), (''status'', Status ''up''), (''status'', Status ''up'')])"
  (is "?run \<and> ?before \<and> ?idx \<and> ?marker \<and> ?again")
proof -
  have run: ?run by code_simp
  have before: ?before by code_simp
  have idx: ?idx by code_simp
  have marker: ?marker by code_simp
  from ready_marker_publishes_up [OF idx marker] before have ?again by simp
  with run before idx marker show ?thesis by blast
qed

subsection \<open>C5: how the manifest reaches the disk\<close>

text \<open>
  C5, as stated, fails: a scan that finds one new file writes \<open>mods.json\<close> in place; no
  temporary file is written and nothing is renamed.
\<close>

theorem scan_overwrites_manifest_in_place:
  "scanForNewMods [''srv''] (Some []) (Some [(''a.jar'', RegularFile ''H1'')]) =
     Inr \<lparr>manifest = [a_jar ''H1''],
          queue = [\<lparr>qdata = a_jar ''H1'', qevent = ''modAddition''\<rparr>],
          published = [(''modAddition'', Mods [a_jar ''H1''])],
          fs_ops = [WriteFile [''srv'', ''mods.json''] (JSON_stringify [a_jar ''H1'']),
                    WriteFile [''srv'', ''clientmods.json''] (JSON_stringify [])]\<rparr> \<and>
   \<not> spec_atomic_replace
        [WriteFile [''srv'', ''mods.json''] (JSON_stringify [a_jar ''H1'']),
         WriteFile [''srv'', ''clientmods.json''] (JSON_stringify [])]
        [''srv'', ''mods.json'']"
  by code_simp

text \<open>
  C5, amended: a scan that completes writes the serialised manifest straight to
  \<open>mods.json\<close> with one \<open>fs.writeFile\<close>, followed by the write of \<open>clientmods.json\<close>;
  it never goes through a temporary file and a rename.
\<close>

theorem scan_writes_directly:
  assumes "scanForNewMods dir this_mods d = Inr r"
  shows "fs_ops r =
           [WriteFile (path_join dir ''mods.json'') (JSON_stringify (manifest r)),
            WriteFile (path_join dir ''clientmods.json'') (JSON_stringify [])] \<and>
         \<not> spec_atomic_replace (fs_ops r) (path_join dir ''mods.json'')"
proof -
  from scan_completed [OF assms]
  have "fs_ops r = fs_ops (scan_done dir (manifest r) (queue r))" by simp
  then show ?thesis by (simp add: scan_done_def spec_atomic_replace_def)
qed

text \<open>An instance: a scan that finds \<open>b.jar\<close> new and \<open>a.jar\<close> unchanged.\<close>

theorem scan_writes_directly_witness:
  "scanForNewMods [''srv''] (Some [a_jar ''H1''])
     (Some [(''b.jar'', RegularFile ''H2''), (''a.jar'', RegularFile ''H1'')]) =
     Inr \<lparr>manifest = [a_jar ''H1'', b_jar ''H2''],
          queue = [\<lparr>qdata = b_jar ''H2'', qevent = ''modAddition''\<rparr>],
          published = [(''modAddition'', Mods [b_jar ''H2''])],
          fs_ops = [WriteFile [''srv'', ''mods.json''] (JSON_stringify [a_jar ''H1'', b_jar ''H2'']),
                    WriteFile [''srv'', ''clientmods.json''] (JSON_stringify [])]\<rparr> \<and>
   \<not> spec_atomic_replace
        (fs_ops \<lparr>manifest = [a_jar ''H1'', b_jar ''H2''],
          queue = [\<lparr>qdata = b_jar ''H2'', qevent = ''modAddition''\<rparr>],
          published = [(''modAddition'', Mods [b_jar ''H2''])],
          fs_ops = [WriteFile [''srv'', ''mods.json''] (JSON_stringify [a_jar ''H1'', b_jar ''H2'']),
                    WriteFile [''srv'', ''clientmods.json''] (JSON_stringify [])]\<rparr>)
        (path_join [''srv''] ''mods.json'')"
  (is "?run \<and> ?direct")
proof -
  have run: ?run by code_simp
  from scan_writes_directly [OF run] have ?direct by (rule conjunct2)
  with run show ?thesis by (rule conjI)
qed

subsection \<open>C6: removeWorld\<close>

text \<open>
  C6: a name with no world directory behind it should be refused with \<open>NOTEXIST\<close>. When
  the name is that of a regular file in the server directory, \<open>fs.existsSync\<close> holds,
  deleteFolderRecursive is entered, and \<open>readdirSync\<close> throws \<open>ENOTDIR\<close>: removeWorld
  returns no response at all. (For an empty name, a running process, a path where
  nothing exists and a path that holds a directory, the four answers of the claim are
  the lemmas above.)
\<close>

theorem removeWorld_regular_file_throws:
  "fs_lookup example_fs (path_join (minecraft_dir example_mc) ''eula.txt'') = Some File \<and>
   removeWorld example_mc example_fs ''eula.txt'' = Inl ENOTDIR"
  by code_simp

subsection \<open>C7: one batch per kind\<close>

text \<open>
  C7: the final callback of a scan publishes, for each of the kinds modAddition,
  modDeletion and modUpdated, no event when the queue holds no record of that kind and
  otherwise exactly one event, which carries every queued record of that kind; it
  publishes nothing else; and every scan that completes publishes what this callback
  publishes for its queue.
\<close>

theorem scan_events_coalesced:
  "(ev \<in> {''modAddition'', ''modDeletion'', ''modUpdated''} \<longrightarrow>
      batches_of ev (published (scan_done dir mods q)) =
        (if affected q ev = [] then [] else [(ev, Mods (affected q ev))])) \<and>
   fst ` set (published (scan_done dir mods q))
     \<subseteq> {''modAddition'', ''modDeletion'', ''modUpdated''} \<and>
   (scanForNewMods dir this_mods d = Inr r \<longrightarrow>
      published r = published (scan_done dir (manifest r) (queue r)))"
proof (intro conjI impI)
  assume "ev \<in> {''modAddition'', ''modDeletion'', ''modUpdated''}"
  then show "batches_of ev (published (scan_done dir mods q)) =
        (if affected q ev = [] then [] else [(ev, Mods (affected q ev))])"
    using batches_of_sendEvents [of ev q]
    by (auto simp: scan_done_def batches_of_def)
next
  show "fst ` set (published (scan_done dir mods q))
          \<subseteq> {''modAddition'', ''modDeletion'', ''modUpdated''}"
    by (auto simp: scan_done_def sendEvents_def Let_def split: list.splits)
next
  assume "scanForNewMods dir this_mods d = Inr r"
  from scan_completed [OF this]
  show "published r = published (scan_done dir (manifest r) (queue r))" by simp
qed

text \<open>
  An instance: two queued deletions around an update give one modDeletion batch with
  both records; and a scan that loses \<open>a.jar\<close> and finds \<open>b.jar\<close> publishes one batch of
  each kind.
\<close>

theorem scan_events_coalesced_witness:
  "''modDeletion'' \<in> {''modAddition'', ''modDeletion'', ''modUpdated''} \<and>
   batches_of ''modDeletion''
     (published (scan_done [''srv''] []
        [\<lparr>qdata = a_jar ''H1'', qevent = ''modDeletion''\<rparr>,
         \<lparr>qdata = a_jar ''H3'', qevent = ''modUpdated''\<rparr>,
         \<lparr>qdata = b_jar ''H2'', qevent = ''modDeletion''\<rparr>])) =
     [(''modDeletion'', Mods [a_jar ''H1'', b_jar ''H2''])] \<and>
   scanForNewMods [''srv''] (Some [a_jar ''H1''])
     (Some [(''mods'', Directory), (''b.jar'', RegularFile ''H2'')]) =
     Inr \<lparr>manifest = [b_jar ''H2''],
          queue = [\<lparr>qdata = a_jar ''H1'', qevent = ''modDeletion''\<rparr>,
                   \<lparr>qdata = b_jar ''H2'', qevent = ''modAddition''\<rparr>],
          published = [(''modAddition'', Mods [b_jar ''H2'']),
                       (''modDeletion'', Mods [a_jar ''H1''])],
          fs_ops = [WriteFile [''srv'', ''mods.json''] (JSON_stringify [b_jar ''H2'']),
                    WriteFile [''srv'', ''clientmods.json''] (JSON_stringify [])]\<rparr>"
  (is "?kind \<and> ?batch \<and> ?run")
proof -
  have kind: ?kind by simp
  have run: ?run by code_simp
  have aff: "affected [\<lparr>qdata = a_jar ''H1'', qevent = ''modDeletion''\<rparr>,
         \<lparr>qdata = a_jar ''H3'', qevent = ''modUpdated''\<rparr>,
         \<lparr>qdata = b_jar ''H2'', qevent = ''modDeletion''\<rparr>] ''modDeletion''
       = [a_jar ''H1'', b_jar ''H2'']"
    by (simp add: affected_def)
  from scan_events_coalesced
         [where ev = "''modDeletion''" and dir = "[''srv'']" and mods = "[]"
            and q = "[\<lparr>qdata = a_jar ''H1'', qevent = ''modDeletion''\<rparr>,
                      \<lparr>qdata = a_jar ''H3'', qevent = ''modUpdated''\<rparr>,
                      \<lparr>qdata = b_jar ''H2'', qevent = ''modDeletion''\<rparr>]"]
       kind aff
  have ?batch by simp
  with kind run show ?thesis by simp
qed

subsection \<open>C8: one chunk of console output\<close>

text \<open>
  C8: for every chunk the data handler returns, has appended the chunk and a newline to
  the log, and has emitted at most one console event: none when the first element of
  \<open>res\<close> is \<open>null\<close>, a single space or the empty string, and otherwise the one that
  carries \<open>res\<close>.
\<close>

theorem console_parser_per_chunk:
  "\<exists>res li self' new.
     parse_chunk (ctags_lastIndex self) data = Some (Inr (res, li)) \<and>
     term_on_data self data = Some (Inr self') \<and>
     logfile self' = logfile self @ [data @ [CHR 0x0A]] \<and>
     emitted self' = emitted self @ new \<and>
     length (console_events new) \<le> 1 \<and>
     (js_nth res 0 \<in> {JNull, JStr '' '', JStr []} \<longrightarrow> console_events new = []) \<and>
     (js_nth res 0 \<notin> {JNull, JStr '' '', JStr []} \<longrightarrow>
        console_events new = [(''console'', Console (JArr res))])"
proof -
  obtain tags li where p: "parse_chunk (ctags_lastIndex self) data
      = Some (Inr (tags @ [JStr (cinfo_of data)], li))"
    using parse_chunk_total by blast
  show ?thesis
    unfolding p term_on_data_def
    by (cases "regexp_exec regex_cdone (cdone_lastIndex self) (cinfo_of data)")
       (auto simp: console_events_def Let_def)
qed

text \<open>An instance: the empty chunk is logged and raises no console event.\<close>

theorem console_parser_per_chunk_witness:
  "parse_chunk (ctags_lastIndex (startServer example_mc)) [] = Some (Inr ([JStr []], 0)) \<and>
   js_nth [JStr []] 0 \<in> {JNull, JStr '' '', JStr []} \<and>
   (\<exists>self' new.
      term_on_data (startServer example_mc) [] = Some (Inr self') \<and>
      logfile self' = logfile (startServer example_mc) @ [[CHR 0x0A]] \<and>
      emitted self' = emitted (startServer example_mc) @ new \<and>
      console_events new = [])"
  (is "?parse \<and> ?first \<and> ?quiet")
proof -
  have parse: ?parse by code_simp
  have first: ?first by (simp add: js_nth_def)
  from console_parser_per_chunk [of "startServer example_mc" "[]"] parse first
  have ?quiet by auto
  with parse first show ?thesis by blast
qed

subsection \<open>C9: getRegexMatches without a regex\<close>

text \<open>
  C9: when its first argument is not a RegExp object, getRegexMatches returns the string
  \<open>ERROR\<close>: a string, not an array of matches, and no exception.
\<close>

theorem getRegexMatches_not_regexp:
  "getRegexMatches (NotRegExp v) lastIndex string = Some (JStr ''ERROR'', lastIndex)"
  by (simp add: getRegexMatches_def)

subsection \<open>C10: the manifest is rewritten after every scan\<close>

text \<open>
  C10: every scan that completes writes the serialisation of its full manifest to
  \<open>mods.json\<close>, whether or not it has queued or published any event.
\<close>

theorem scan_always_rewrites_manifest:
  assumes "scanForNewMods dir this_mods d = Inr r"
  shows "WriteFile (path_join dir ''mods.json'') (JSON_stringify (manifest r)) \<in> set (fs_ops r)"
proof -
  from scan_completed [OF assms]
  have "fs_ops r = fs_ops (scan_done dir (manifest r) (queue r))" by simp
  then show ?thesis by (simp add: scan_done_def)
qed

text \<open>An instance: nothing has changed, no event is published, the file is written.\<close>

theorem scan_always_rewrites_manifest_witness:
  "scanForNewMods [''srv''] (Some [a_jar ''H1'']) (Some [(''a.jar'', RegularFile ''H1'')]) =
     Inr \<lparr>manifest = [a_jar ''H1''], queue = [], published = [],
          fs_ops = [WriteFile [''srv'', ''mods.json''] (JSON_stringify [a_jar ''H1'']),
                    WriteFile [''srv'', ''clientmods.json''] (JSON_stringify [])]\<rparr> \<and>
   WriteFile (path_join [''srv''] ''mods.json'')
     (JSON_stringify (manifest
        \<lparr>manifest = [a_jar ''H1''], queue = [], published = [],
         fs_ops = [WriteFile [''srv'', ''mods.json''] (JSON_stringify [a_jar ''H1'']),
                   WriteFile [''srv'', ''clientmods.json''] (JSON_stringify [])]\<rparr>))
     \<in> set (fs_ops
        \<lparr>manifest = [a_jar ''H1''], queue = [], published = [],
         fs_ops = [WriteFile [''srv'', ''mods.json''] (JSON_stringify [a_jar ''H1'']),
                   WriteFile [''srv'', ''clientmods.json''] (JSON_stringify [])]\<rparr>)"
  (is "?run \<and> ?written")
proof -
  have run: ?run by code_simp
  from scan_always_rewrites_manifest [OF run] have ?written .
  with run show ?thesis by (rule conjI)
qed

end
